theory Spec2Isabelle
  imports Complex_Main "HOL-Library.Word" "HOL-Library.Multiset" "HOL-Library.Sublist"
begin

section \<open>JavaScript strings\<close>

text \<open>
  A JavaScript string is a sequence of UTF-16 code units. An ASCII literal of the source
  is embedded with \<open>ustr\<close>; code units outside ASCII are written as numbers.
\<close>

type_synonym jsstring = "16 word list"

definition ustr :: "string \<Rightarrow> jsstring" where
  "ustr s = map (\<lambda>c. of_nat (of_char c)) s"

text \<open>
  \<open>String.prototype.trim\<close> removes the code units of WhiteSpace and LineTerminator
  (ECMA-262) from both ends: TAB, VT, FF, SP, NBSP, ZWNBSP, the Unicode space
  separators, LF, CR, LS and PS.
\<close>

definition isWhiteSpace :: "16 word \<Rightarrow> bool" where
  "isWhiteSpace c \<longleftrightarrow>
     c = 0x09 \<or> c = 0x0A \<or> c = 0x0B \<or> c = 0x0C \<or> c = 0x0D \<or> c = 0x20 \<or>
     c = 0xA0 \<or> c = 0x1680 \<or> (0x2000 \<le> c \<and> c \<le> 0x200A) \<or>
     c = 0x2028 \<or> c = 0x2029 \<or> c = 0x202F \<or> c = 0x205F \<or> c = 0x3000 \<or>
     c = 0xFEFF"

definition trimStart :: "jsstring \<Rightarrow> jsstring" where
  "trimStart s = dropWhile isWhiteSpace s"

definition trim :: "jsstring \<Rightarrow> jsstring" where
  "trim s = rev (dropWhile isWhiteSpace (rev (dropWhile isWhiteSpace s)))"

text \<open>
  \<open>s.split(sep)\<close> with a string separator: the pieces between the non-overlapping
  occurrences of \<open>sep\<close>, found from the left. \<open>acc\<close> holds the current piece,
  reversed. The empty separator splits into single code units.
\<close>

function split_from :: "jsstring \<Rightarrow> jsstring \<Rightarrow> jsstring \<Rightarrow> jsstring list" where
  "split_from sep acc [] = [rev acc]"
| "split_from sep acc (c # cs) =
     (if sep \<noteq> [] \<and> prefix sep (c # cs)
      then rev acc # split_from sep [] (drop (length sep) (c # cs))
      else split_from sep (c # acc) cs)"
  by pat_completeness auto
termination
  by (relation "measure (\<lambda>(sep, acc, s). length s)") auto

definition split :: "jsstring \<Rightarrow> jsstring \<Rightarrow> jsstring list" where
  "split sep s = (if sep = [] then map (\<lambda>c. [c]) s else split_from sep [] s)"

definition newline :: jsstring where
  "newline = [0x0A]"

section \<open>Promises\<close>

text \<open>
  The two log readers return a promise, which resolves to a value or rejects with an
  error. \<open>child_process.exec\<close> hands its callback the error of the child process, if
  any, and the text of its standard output.
\<close>

datatype js_error = JsError jsstring | JsRangeError jsstring

datatype 'a promise = Resolved 'a | Rejected js_error

type_synonym exec_error = jsstring

subsection \<open>parseGitLog\<close>

text \<open>
  The \<open>Map\<close> of the source is only ever read with \<open>get\<close>, so it is a partial
  function from the date text to its count. Counts start at 1 and only grow.
\<close>

type_synonym stats = "jsstring \<rightharpoonup> nat"

definition stats_get_or_0 :: "stats \<Rightarrow> jsstring \<Rightarrow> nat" where
  "stats_get_or_0 stats k = (case stats k of None \<Rightarrow> 0 | Some n \<Rightarrow> n)"

definition count_line :: "jsstring \<Rightarrow> stats \<Rightarrow> stats" where
  "count_line date stats =
     (let cleanDate = trim date
      in stats(cleanDate \<mapsto> stats_get_or_0 stats cleanDate + 1))"

definition parseGitLog :: "jsstring \<Rightarrow> stats" where
  "parseGitLog gitLog =
     (let lines = filter (\<lambda>l. trim l \<noteq> []) (split newline gitLog)
      in fold count_line lines Map.empty)"

subsection \<open>getCommitsForDate\<close>

record CommitDetail =
  hash :: jsstring
  message :: jsstring
  author :: jsstring
  date :: jsstring

definition separator :: jsstring where
  "separator = [0xA7, 0xA7, 0xA7]"

definition push_line :: "jsstring \<Rightarrow> CommitDetail list \<Rightarrow> CommitDetail list" where
  "push_line line commits =
     (if trim line = [] then commits
      else let parts = split separator line
           in if length parts \<ge> 4
              then commits @ [\<lparr>hash = parts ! 0, message = parts ! 1,
                               author = parts ! 2, date = parts ! 3\<rparr>]
              else commits)"

definition getCommitsForDate :: "exec_error option \<Rightarrow> jsstring \<Rightarrow> CommitDetail list promise" where
  "getCommitsForDate err stdout =
     (if err \<noteq> None \<or> stdout = [] then Resolved []
      else Resolved (fold push_line (split newline stdout) []))"

section \<open>Colour levels\<close>

definition PALETTE_light :: "jsstring list" where
  "PALETTE_light =
     [ustr ''#ebedf0'', ustr ''#9be9a8'', ustr ''#40c463'', ustr ''#30a14e'', ustr ''#216e39'']"

definition PALETTE_dark :: "jsstring list" where
  "PALETTE_dark =
     [ustr ''#161b22'', ustr ''#0e4429'', ustr ''#006d32'', ustr ''#26a641'', ustr ''#39d353'']"

definition colors :: "bool \<Rightarrow> jsstring list" where
  "colors isDarkMode = (if isDarkMode then PALETTE_dark else PALETTE_light)"

text \<open>The four assignments to \<open>level\<close>, in the order of the source.\<close>

definition level :: "nat \<Rightarrow> nat" where
  "level cnt =
     (let l0 = 0;
          l1 = (if cnt > 0 then 1 else l0);
          l2 = (if cnt > 3 then 2 else l1);
          l3 = (if cnt > 6 then 3 else l2);
          l4 = (if cnt > 10 then 4 else l3)
      in l4)"

section \<open>Dates\<close>

text \<open>
  A \<open>Date\<close> is its time value: milliseconds since 1 January 1970 UTC. The time zone
  of the host is given by its two offsets of ECMA-262, in milliseconds east of UTC:
  \<open>offsetAt\<close> at a UTC instant (\<open>LocalTZA(t, true)\<close>) and \<open>offsetFor\<close> for a local
  time value (\<open>LocalTZA(t, false)\<close>, which reads a skipped or repeated local time with
  the offset before the transition).
\<close>

record zone =
  offsetAt :: "int \<Rightarrow> int"
  offsetFor :: "int \<Rightarrow> int"

definition msPerDay :: int where
  "msPerDay = 86400000"

definition LocalTime :: "zone \<Rightarrow> int \<Rightarrow> int" where
  "LocalTime z t = t + offsetAt z t"

definition UTC :: "zone \<Rightarrow> int \<Rightarrow> int" where
  "UTC z t = t - offsetFor z t"

definition TimeClip :: "int \<Rightarrow> int option" where
  "TimeClip t = (if \<bar>t\<bar> \<le> 8640000000000000 then Some t else None)"

text \<open>
  \<open>d.setDate(d.getDate() + k)\<close> on a valid date: the local time of \<open>d\<close> keeps its
  time within the day and moves by \<open>k\<close> local calendar days (\<open>MakeDay\<close> of the year
  and month of \<open>d\<close> with day of month \<open>getDate() + k\<close>, then \<open>MakeDate\<close>), and the
  result is read back as a local time. \<open>setDate_plus\<close> is the new time value, \<open>None\<close>
  for the Invalid Date that \<open>TimeClip\<close> gives outside the range of \<open>Date\<close>;
  \<open>addDays\<close> is the same before clipping.
\<close>

definition addDays :: "zone \<Rightarrow> int \<Rightarrow> int \<Rightarrow> int" where
  "addDays z t k = UTC z (LocalTime z t + k * msPerDay)"

definition setDate_plus :: "zone \<Rightarrow> int \<Rightarrow> int \<Rightarrow> int option" where
  "setDate_plus z t k = TimeClip (addDays z t k)"

definition localDay :: "zone \<Rightarrow> int \<Rightarrow> int" where
  "localDay z t = LocalTime z t div msPerDay"

definition utcDay :: "int \<Rightarrow> int" where
  "utcDay t = t div msPerDay"

text \<open>
  Two zones: one with a constant offset, and Pacific/Apia around its move across the
  date line, when the clocks went from the end of Thursday 29 December 2011 (UTC-10) to
  the start of Saturday 31 December 2011 (UTC+14) at 2011-12-30T10:00Z; the local date
  30 December 2011 does not exist there.
\<close>

definition fixed_zone :: "int \<Rightarrow> zone" where
  "fixed_zone tz = \<lparr>offsetAt = (\<lambda>t. tz), offsetFor = (\<lambda>t. tz)\<rparr>"


text \<open>
  The calendar fields of a day number, after ECMA-262: \<open>DayFromYear\<close>,
  \<open>InLeapYear\<close>, \<open>DayWithinYear\<close>, \<open>MonthFromTime\<close> and \<open>DateFromTime\<close>, on
  days instead of milliseconds. The year of a day (the largest \<open>y\<close> with
  \<open>DayFromYear y \<le> day\<close>) is computed in closed form, from the 400-year cycle that
  starts on 1 March of year 0.
\<close>

definition DayFromYear :: "int \<Rightarrow> int" where
  "DayFromYear y =
     365 * (y - 1970) + (y - 1969) div 4 - (y - 1901) div 100 + (y - 1601) div 400"

definition InLeapYear :: "int \<Rightarrow> int" where
  "InLeapYear y =
     (if y mod 4 \<noteq> 0 then 0 else if y mod 100 \<noteq> 0 then 1
      else if y mod 400 \<noteq> 0 then 0 else 1)"

definition YearFromDay :: "int \<Rightarrow> int" where
  "YearFromDay dayNumber =
     (let z = dayNumber + 719468;
          era = z div 146097;
          doe = z - era * 146097;
          yoe = (doe - doe div 1460 + doe div 36524 - doe div 146096) div 365;
          doy = doe - (365 * yoe + yoe div 4 - yoe div 100);
          mp = (5 * doy + 2) div 153
      in yoe + era * 400 + (if mp < 10 then 0 else 1))"

definition DayWithinYear :: "int \<Rightarrow> int" where
  "DayWithinYear dayNumber = dayNumber - DayFromYear (YearFromDay dayNumber)"

definition MonthFromDay :: "int \<Rightarrow> int" where
  "MonthFromDay dayNumber =
     (let w = DayWithinYear dayNumber;
          leap = InLeapYear (YearFromDay dayNumber)
      in if w < 31 then 0
         else if w < 59 + leap then 1
         else if w < 90 + leap then 2
         else if w < 120 + leap then 3
         else if w < 151 + leap then 4
         else if w < 181 + leap then 5
         else if w < 212 + leap then 6
         else if w < 243 + leap then 7
         else if w < 273 + leap then 8
         else if w < 304 + leap then 9
         else if w < 334 + leap then 10
         else 11)"

definition DateFromDay :: "int \<Rightarrow> int" where
  "DateFromDay dayNumber =
     (let w = DayWithinYear dayNumber;
          leap = InLeapYear (YearFromDay dayNumber);
          m = MonthFromDay dayNumber
      in if m = 0 then w + 1
         else if m = 1 then w - 30
         else if m = 2 then w - 58 - leap
         else if m = 3 then w - 89 - leap
         else if m = 4 then w - 119 - leap
         else if m = 5 then w - 150 - leap
         else if m = 6 then w - 180 - leap
         else if m = 7 then w - 211 - leap
         else if m = 8 then w - 242 - leap
         else if m = 9 then w - 272 - leap
         else if m = 10 then w - 303 - leap
         else w - 333 - leap)"

definition getDay :: "zone \<Rightarrow> int \<Rightarrow> int" where
  "getDay z t = (localDay z t + 4) mod 7"

definition getMonth :: "zone \<Rightarrow> int \<Rightarrow> int" where
  "getMonth z t = MonthFromDay (localDay z t)"

fun decimal :: "nat \<Rightarrow> nat \<Rightarrow> jsstring" where
  "decimal 0 n = []"
| "decimal (Suc k) n = decimal k (n div 10) @ [of_nat (48 + n mod 10)]"

text \<open>\<open>toISOString().split('T')[0]\<close>: the UTC date, with the expanded year outside 0 to 9999.\<close>

definition toISODate :: "int \<Rightarrow> jsstring" where
  "toISODate t =
     (let y = YearFromDay (utcDay t);
          m = MonthFromDay (utcDay t) + 1;
          d = DateFromDay (utcDay t)
      in (if 0 \<le> y \<and> y \<le> 9999 then decimal 4 (nat y)
          else (if y < 0 then ustr ''-'' else ustr ''+'') @ decimal 6 (nat \<bar>y\<bar>))
         @ ustr ''-'' @ decimal 2 (nat m) @ ustr ''-'' @ decimal 2 (nat d))"

section \<open>getGitLog\<close>

text \<open>
  The executor of the promise first computes the since date, \<open>days\<close> local days
  before \<open>now\<close>. \<open>toISOString\<close> throws a \<open>RangeError\<close> on an Invalid Date; thrown
  inside the executor, it rejects the promise, and \<open>exec\<close> is not called. Otherwise
  \<open>exec\<close>, the child process as a function of the command line and the working
  directory, gives the arguments of the callback.
\<close>

definition gitLogCommand :: "jsstring \<Rightarrow> jsstring" where
  "gitLogCommand sinceDate =
     ustr ''git log --since='' @ [0x22] @ sinceDate @ [0x22]
     @ ustr '' --date=short --format='' @ [0x22] @ ustr ''%ad'' @ [0x22]"

definition getGitLog ::
  "zone \<Rightarrow> int \<Rightarrow> (jsstring \<Rightarrow> jsstring \<Rightarrow> exec_error option \<times> jsstring) \<Rightarrow>
   jsstring \<Rightarrow> int \<Rightarrow> jsstring promise" where
  "getGitLog z now exec cwd days =
     (case setDate_plus z now (- days) of
        None \<Rightarrow> Rejected (JsRangeError (ustr ''Invalid time value''))
      | Some d \<Rightarrow>
          (let sinceDate = toISODate d;
               cmd = gitLogCommand sinceDate
           in case exec cmd cwd of
                (err, stdout) \<Rightarrow>
                  if err \<noteq> None \<and> stdout = [] then Rejected (JsError (ustr ''No Git Log''))
                  else Resolved (if stdout \<noteq> [] then stdout else [])))"

section \<open>The plugin and the page\<close>

record cellMeta =
  dateStr :: jsstring
  count :: nat

text \<open>
  An SVG \<open>rect\<close> element: its identity as an object (\<open>rect_uid\<close>, fresh at creation)
  and the attributes the render sets.
\<close>

record rect =
  rect_uid :: nat
  rect_x :: int
  rect_y :: int
  rect_fill :: jsstring

text \<open>A sparse array of sparse arrays, indexed \<open>[row][col]\<close>.\<close>

type_synonym 'a grid = "int \<rightharpoonup> (int \<rightharpoonup> 'a)"

definition cell :: "'a grid \<Rightarrow> int \<Rightarrow> int \<Rightarrow> 'a option" where
  "cell g row col = (case g row of None \<Rightarrow> None | Some r \<Rightarrow> r col)"

definition grid_set :: "'a grid \<Rightarrow> int \<Rightarrow> int \<Rightarrow> 'a \<Rightarrow> 'a grid" where
  "grid_set g row col v =
     (let r = (case g row of None \<Rightarrow> Map.empty | Some r \<Rightarrow> r)
      in g(row \<mapsto> r(col \<mapsto> v)))"

text \<open>
  The fields of the plugin object, and what of the page the render and the selection
  write: \<open>activeSelected\<close> holds the rect elements that carry the class
  \<open>active-selected\<close> (by their \<open>rect_uid\<close>), \<open>infoArea\<close> the date and count of the
  last \<open>updateInfoArea\<close> call, \<open>monthLabels\<close> the month texts of the current SVG
  with their \<open>x\<close>, in document order, and \<open>nextUid\<close> counts the rect elements
  created so far. \<open>keyHandler\<close> is the registered handler, given by the
  \<open>totalWeeks\<close> it closes over. Weekday labels, legend, tooltips, scrolling and
  \<open>preventDefault\<close> do not touch any of these and are left out.
\<close>

record plugin =
  activeRect :: "rect option"
  gridRects :: "rect grid"
  gridMeta :: "cellMeta grid"
  currentPos :: "int \<times> int"
  keyHandler :: "int option"
  activeSelected :: "nat set"
  infoArea :: "(jsstring \<times> nat) option"
  monthLabels :: "(jsstring \<times> int) list"
  nextUid :: nat

definition initial_plugin :: plugin where
  "initial_plugin =
     \<lparr>activeRect = None, gridRects = Map.empty, gridMeta = Map.empty, currentPos = (0, 0),
      keyHandler = None, activeSelected = {}, infoArea = None, monthLabels = [],
      nextUid = 0\<rparr>"

subsection \<open>selectCell\<close>

definition selectCell :: "int \<Rightarrow> int \<Rightarrow> plugin \<Rightarrow> plugin" where
  "selectCell row col p =
     (case cell (gridRects p) row col of
        None \<Rightarrow> p
      | Some rect \<Rightarrow>
          (case cell (gridMeta p) row col of
             None \<Rightarrow> p
           | Some meta \<Rightarrow>
               p\<lparr>activeSelected :=
                    insert (rect_uid rect)
                      (case activeRect p of None \<Rightarrow> activeSelected p
                       | Some a \<Rightarrow> activeSelected p - {rect_uid a}),
                  activeRect := Some rect,
                  currentPos := (row, col),
                  infoArea := Some (dateStr meta, count meta)\<rparr>))"

text \<open>
  The invariant of the selection: \<open>currentPos\<close> is a populated position of both
  grids, and \<open>activeRect\<close> is the rect stored there.
\<close>

definition selection_populated :: "plugin \<Rightarrow> bool" where
  "selection_populated p \<longleftrightarrow>
     (case currentPos p of (row, col) \<Rightarrow>
        cell (gridRects p) row col \<noteq> None \<and> cell (gridMeta p) row col \<noteq> None
        \<and> activeRect p = cell (gridRects p) row col)"

subsection \<open>The key handler\<close>

datatype key = ArrowUp | ArrowDown | ArrowLeft | ArrowRight | OtherKey

text \<open>The clamped target of an arrow key; no target for any other key.\<close>

definition arrowTarget :: "int \<Rightarrow> key \<Rightarrow> int \<times> int \<Rightarrow> (int \<times> int) option" where
  "arrowTarget totalWeeks k pos =
     (case pos of (row, col) \<Rightarrow>
        (case k of
           ArrowUp \<Rightarrow> Some (max 0 (row - 1), col)
         | ArrowDown \<Rightarrow> Some (min 6 (row + 1), col)
         | ArrowLeft \<Rightarrow> Some (row, max 0 (col - 1))
         | ArrowRight \<Rightarrow> Some (row, min (totalWeeks - 1) (col + 1))
         | OtherKey \<Rightarrow> None))"

text \<open>\<open>editing\<close>: the focus is in an input, a textarea or a content-editable element.\<close>

definition keyHandler_run :: "int \<Rightarrow> bool \<Rightarrow> key \<Rightarrow> plugin \<Rightarrow> plugin" where
  "keyHandler_run totalWeeks editing k p =
     (if editing then p
      else case arrowTarget totalWeeks k (currentPos p) of
             None \<Rightarrow> p
           | Some (newRow, newCol) \<Rightarrow>
               (if newRow \<noteq> fst (currentPos p) \<or> newCol \<noteq> snd (currentPos p)
                then selectCell newRow newCol p else p))"

text \<open>A \<open>keydown\<close> event on the window runs the registered handler, if there is one.\<close>

definition keydown :: "bool \<Rightarrow> key \<Rightarrow> plugin \<Rightarrow> plugin" where
  "keydown editing k p =
     (case keyHandler p of None \<Rightarrow> p
      | Some totalWeeks \<Rightarrow> keyHandler_run totalWeeks editing k p)"

subsection \<open>renderHeatmap\<close>

definition blockSize :: int where "blockSize = 12"
definition blockGap :: int where "blockGap = 2"

definition monthNames :: "jsstring list" where
  "monthNames =
     [ustr ''Jan'', ustr ''Feb'', ustr ''Mar'', ustr ''Apr'', ustr ''May'', ustr ''Jun'',
      ustr ''Jul'', ustr ''Aug'', ustr ''Sep'', ustr ''Oct'', ustr ''Nov'', ustr ''Dec'']"

definition startDate :: "zone \<Rightarrow> int \<Rightarrow> int \<Rightarrow> int" where
  "startDate z now displayDays = addDays z now (- displayDays + 1)"

definition totalWeeks :: "int \<Rightarrow> int \<Rightarrow> int" where
  "totalWeeks displayDays startDayOfWeek =
     \<lceil>real_of_int (displayDays + startDayOfWeek) / 7\<rceil>"

definition cellRow :: "zone \<Rightarrow> int \<Rightarrow> int \<Rightarrow> int" where
  "cellRow z start i = getDay z (addDays z start i)"

definition cellCol :: "int \<Rightarrow> int \<Rightarrow> int" where
  "cellCol startDayOfWeek i = \<lfloor>real_of_int (i + startDayOfWeek) / 7\<rfloor>"

text \<open>
  One pass of the loop body at offset \<open>i\<close>. The local variable \<open>lastMonth\<close> travels
  with the plugin state. \<open>processHeatmap\<close> calls \<open>renderHeatmap\<close> only after
  \<open>getGitLog\<close> has resolved for the same window, whose since date lies one day before
  \<open>startDate\<close>; the dates of a render are therefore valid, and are not clipped here.
\<close>

definition layout_step ::
  "zone \<Rightarrow> bool \<Rightarrow> stats \<Rightarrow> int \<Rightarrow> int \<Rightarrow> int \<Rightarrow> int \<times> plugin \<Rightarrow> int \<times> plugin" where
  "layout_step z isDarkMode stats start startDayOfWeek i s =
     (case s of (lastMonth, p) \<Rightarrow>
        (let currentDate = addDays z start i;
             row = cellRow z start i;
             col = cellCol startDayOfWeek i;
             currentMonth = getMonth z currentDate;
             emit = (((col = 0 \<and> i = 0) \<or> row = 0) \<and> currentMonth \<noteq> lastMonth);
             labels = (if emit
                       then monthLabels p @
                            [(monthNames ! nat currentMonth, col * (blockSize + blockGap))]
                       else monthLabels p);
             dateStr = toISODate currentDate;
             cnt = stats_get_or_0 stats dateStr;
             rect = \<lparr>rect_uid = nextUid p,
                     rect_x = col * (blockSize + blockGap),
                     rect_y = row * (blockSize + blockGap),
                     rect_fill = colors isDarkMode ! level cnt\<rparr>
         in (if emit then currentMonth else lastMonth,
             p\<lparr>gridRects := grid_set (gridRects p) row col rect,
               gridMeta := grid_set (gridMeta p) row col \<lparr>dateStr = dateStr, count = cnt\<rparr>,
               monthLabels := labels,
               nextUid := nextUid p + 1\<rparr>)))"

function layout_loop ::
  "zone \<Rightarrow> bool \<Rightarrow> stats \<Rightarrow> int \<Rightarrow> int \<Rightarrow> int \<Rightarrow> int \<Rightarrow> int \<times> plugin \<Rightarrow> int \<times> plugin" where
  "layout_loop z isDarkMode stats start startDayOfWeek displayDays i s =
     (if i < displayDays
      then layout_loop z isDarkMode stats start startDayOfWeek displayDays (i + 1)
             (layout_step z isDarkMode stats start startDayOfWeek i s)
      else s)"
  by pat_completeness auto
termination
  by (relation "measure (\<lambda>(z, dk, st, start, sd, displayDays, i, s). nat (displayDays - i))")
     auto

declare layout_loop.simps [simp del]

definition renderHeatmap ::
  "zone \<Rightarrow> bool \<Rightarrow> int \<Rightarrow> stats \<Rightarrow> int \<Rightarrow> plugin \<Rightarrow> plugin" where
  "renderHeatmap z isDarkMode now stats displayDays p =
     (let p1 = p\<lparr>gridRects := Map.empty, gridMeta := Map.empty, monthLabels := []\<rparr>;
          start = startDate z now displayDays;
          startDayOfWeek = getDay z start;
          weeks = totalWeeks displayDays startDayOfWeek;
          p2 = snd (layout_loop z isDarkMode stats start startDayOfWeek displayDays 0
                      (- 1, p1));
          p3 = p2\<lparr>keyHandler := Some weeks\<rparr>
      in selectCell startDayOfWeek (weeks - 1) p3)"

section \<open>Settings\<close>

record GitHeatmapSettings =
  defaultDays :: int

definition DEFAULT_SETTINGS :: GitHeatmapSettings where
  "DEFAULT_SETTINGS = \<lparr>defaultDays = 365\<rparr>"

text \<open>
  \<open>parseInt\<close> without a radix (ECMA-262): leading white space is dropped, then an
  optional sign, then \<open>0x\<close> or \<open>0X\<close> selects radix 16, then the longest run of digits
  is read. \<open>None\<close> is \<open>NaN\<close>. The result is an unbounded integer here.
\<close>

definition digitValue :: "16 word \<Rightarrow> nat option" where
  "digitValue c =
     (if 0x30 \<le> c \<and> c \<le> 0x39 then Some (unat c - 48)
      else if 0x61 \<le> c \<and> c \<le> 0x7A then Some (unat c - 87)
      else if 0x41 \<le> c \<and> c \<le> 0x5A then Some (unat c - 55)
      else None)"

definition isRadixDigit :: "nat \<Rightarrow> 16 word \<Rightarrow> bool" where
  "isRadixDigit R c = (case digitValue c of None \<Rightarrow> False | Some v \<Rightarrow> v < R)"

definition digitsValue :: "nat \<Rightarrow> jsstring \<Rightarrow> nat" where
  "digitsValue R Z =
     foldl (\<lambda>a c. a * R + (case digitValue c of None \<Rightarrow> 0 | Some v \<Rightarrow> v)) 0 Z"

definition parseInt :: "jsstring \<Rightarrow> int option" where
  "parseInt string =
     (let S = trimStart string;
          sign = (if S \<noteq> [] \<and> hd S = 0x2D then - 1 else 1);
          S1 = (if S \<noteq> [] \<and> (hd S = 0x2B \<or> hd S = 0x2D) then tl S else S);
          hex = (length S1 \<ge> 2 \<and> (take 2 S1 = ustr ''0x'' \<or> take 2 S1 = ustr ''0X''));
          R = (if hex then 16 else 10);
          S2 = (if hex then drop 2 S1 else S1);
          Z = takeWhile (isRadixDigit R) S2
      in if Z = [] then None else Some (sign * int (digitsValue R Z)))"

text \<open>The \<open>onChange\<close> callback of the Default Days field: \<open>parseInt(v) || 365\<close>.\<close>

definition onChange :: "jsstring \<Rightarrow> GitHeatmapSettings \<Rightarrow> GitHeatmapSettings" where
  "onChange v settings =
     settings\<lparr>defaultDays :=
       (case parseInt v of None \<Rightarrow> 365 | Some n \<Rightarrow> if n = 0 then 365 else n)\<rparr>"

section \<open>Theorems\<close>

subsection \<open>Colour levels\<close>

text \<open>
  C3. For every non-negative count \<open>n\<close> the level is 0 for \<open>n = 0\<close>, 1 for 1 to 3,
  2 for 4 to 6, 3 for 7 to 10 and 4 from 11 on; so the level is monotone in \<open>n\<close>, at
  most 4, and a valid index into either five-entry palette.
\<close>

theorem level_thresholds:
  "level n = (if n = 0 then 0 else if n \<le> 3 then 1 else if n \<le> 6 then 2
              else if n \<le> 10 then 3 else 4)
   \<and> (m \<le> n \<longrightarrow> level m \<le> level n)
   \<and> level n \<le> 4
   \<and> level n < length (colors isDarkMode)"
  by (simp add: level_def colors_def PALETTE_light_def PALETTE_dark_def)

theorem level_thresholds_witness:
  "level 0 = 0 \<and> level 1 = 1 \<and> level 3 = 1 \<and> level 4 = 2 \<and> level 6 = 2 \<and> level 7 = 3
   \<and> level 10 = 3 \<and> level 11 = 4 \<and> (3::nat) \<le> 11 \<and> level 3 \<le> level 11"
  using level_thresholds [of 0 0 True] level_thresholds [of 1 0 True]
    level_thresholds [of 3 0 True] level_thresholds [of 4 0 True]
    level_thresholds [of 6 0 True] level_thresholds [of 7 0 True]
    level_thresholds [of 10 0 True] level_thresholds [of 11 3 True]
  by simp

subsection \<open>Log reading\<close>

text \<open>
  C6 (amended). When the since date, \<open>days\<close> local days before \<open>now\<close>, is a valid
  \<open>Date\<close>, \<open>getGitLog\<close> rejects if and only if the tool reported an error and
  produced no output, and then with the error \<open>No Git Log\<close>; whenever there is
  output, with or without an error, it resolves to that output unchanged. When the since
  date is outside the range of \<open>Date\<close> it rejects with a \<open>RangeError\<close>, whatever the
  tool would give.
\<close>

theorem getGitLog_settles:
  "(setDate_plus z now (- days) = None \<longrightarrow>
      getGitLog z now exec cwd days = Rejected (JsRangeError (ustr ''Invalid time value'')))
   \<and> (setDate_plus z now (- days) = Some d
        \<and> exec (gitLogCommand (toISODate d)) cwd = (err, stdout) \<longrightarrow>
        ((\<exists>e. getGitLog z now exec cwd days = Rejected e) \<longleftrightarrow> (err \<noteq> None \<and> stdout = []))
        \<and> (err \<noteq> None \<and> stdout = [] \<longrightarrow>
             getGitLog z now exec cwd days = Rejected (JsError (ustr ''No Git Log'')))
        \<and> (stdout \<noteq> [] \<longrightarrow> getGitLog z now exec cwd days = Resolved stdout)
        \<and> (err = None \<longrightarrow> getGitLog z now exec cwd days = Resolved stdout))"
  by (simp add: getGitLog_def Let_def)

text \<open>
  A window of 365 days on 9 January 2024, UTC: the since date is 9 January 2023. A tool
  that fails with no output, and a tool that fails after printing one date.
\<close>

theorem getGitLog_settles_witness:
  "getGitLog (fixed_zone 0) 1704801600000 (\<lambda>cmd cwd. (Some (ustr ''fatal''), []))
     (ustr ''/vault'') 365 = Rejected (JsError (ustr ''No Git Log''))
   \<and> getGitLog (fixed_zone 0) 1704801600000
       (\<lambda>cmd cwd. (Some (ustr ''fatal''), ustr ''2024-01-01'')) (ustr ''/vault'') 365
     = Resolved (ustr ''2024-01-01'')"
proof -
  have since: "setDate_plus (fixed_zone 0) 1704801600000 (- 365) = Some 1673265600000"
    by (simp add: setDate_plus_def TimeClip_def addDays_def UTC_def LocalTime_def
        fixed_zone_def msPerDay_def)
  have nonempty: "ustr ''2024-01-01'' \<noteq> []"
    by (simp add: ustr_def)
  from getGitLog_settles [where z = "fixed_zone 0" and now = 1704801600000 and days = 365
      and d = 1673265600000 and exec = "\<lambda>cmd cwd. (Some (ustr ''fatal''), [])"
      and cwd = "ustr ''/vault''" and err = "Some (ustr ''fatal'')" and stdout = "[]"] since
  have first: "getGitLog (fixed_zone 0) 1704801600000 (\<lambda>cmd cwd. (Some (ustr ''fatal''), []))
     (ustr ''/vault'') 365 = Rejected (JsError (ustr ''No Git Log''))"
    by simp
  from getGitLog_settles [where z = "fixed_zone 0" and now = 1704801600000 and days = 365
      and d = 1673265600000
      and exec = "\<lambda>cmd cwd. (Some (ustr ''fatal''), ustr ''2024-01-01'')"
      and cwd = "ustr ''/vault''" and err = "Some (ustr ''fatal'')"
      and stdout = "ustr ''2024-01-01''"] since nonempty
  have second: "getGitLog (fixed_zone 0) 1704801600000
       (\<lambda>cmd cwd. (Some (ustr ''fatal''), ustr ''2024-01-01'')) (ustr ''/vault'') 365
     = Resolved (ustr ''2024-01-01'')"
    by simp
  from first second show ?thesis
    by simp
qed

text \<open>
  C6 as stated fails: with a window of 200000000 days the since date is an Invalid Date,
  and the call rejects although the tool reports no error and would print a date.
\<close>

theorem getGitLog_invalid_date:
  "getGitLog (fixed_zone 0) 1704801600000 (\<lambda>cmd cwd. (None, ustr ''2024-01-01''))
     (ustr ''/vault'') 200000000 = Rejected (JsRangeError (ustr ''Invalid time value''))"
  by (simp add: getGitLog_def setDate_plus_def TimeClip_def addDays_def UTC_def LocalTime_def
      fixed_zone_def msPerDay_def)

text \<open>
  C7. \<open>getCommitsForDate\<close> never rejects: on any error of the tool, and on empty
  output, it resolves to the empty list.
\<close>

theorem getCommitsForDate_never_rejects:
  "(\<exists>commits. getCommitsForDate err stdout = Resolved commits)
   \<and> (err \<noteq> None \<or> stdout = [] \<longrightarrow> getCommitsForDate err stdout = Resolved [])"
  by (simp add: getCommitsForDate_def)

theorem getCommitsForDate_never_rejects_witness:
  "getCommitsForDate (Some (ustr ''fatal''))
     (ustr ''abc'' @ separator @ ustr ''m'' @ separator @ ustr ''a'' @ separator @ ustr ''d'')
     = Resolved []
   \<and> getCommitsForDate None [] = Resolved []"
  using getCommitsForDate_never_rejects [of "Some (ustr ''fatal'')"
      "ustr ''abc'' @ separator @ ustr ''m'' @ separator @ ustr ''a'' @ separator @ ustr ''d''"]
    getCommitsForDate_never_rejects [of None "[]"]
  by simp

subsection \<open>Parsing\<close>

lemma fold_push_line:
  "fold push_line ls acc =
     acc @ map (\<lambda>l. \<lparr>hash = split separator l ! 0, message = split separator l ! 1,
                      author = split separator l ! 2, date = split separator l ! 3\<rparr>)
            (filter (\<lambda>l. trim l \<noteq> [] \<and> 4 \<le> length (split separator l)) ls)"
  by (induction ls arbitrary: acc) (simp_all add: push_line_def Let_def)

lemma split_newline_Nil: "split newline [] = [[]]"
  by (simp add: split_def newline_def)

text \<open>
  C8. For every raw detail text, the parse keeps exactly the lines that are not blank
  and split into at least 4 fields at the separator, in their order in the text, and
  turns each into the record of its first four fields; nothing fails. The line
  \<open>abc123\<section>\<section>\<section>Fix bug\<section>\<section>\<section>Alice\<section>\<section>\<section>2024-01-05T10:00:00\<close> gives exactly one record.
\<close>

theorem getCommitsForDate_parse:
  "getCommitsForDate None stdout =
     Resolved (map (\<lambda>l. \<lparr>hash = split separator l ! 0, message = split separator l ! 1,
                           author = split separator l ! 2, date = split separator l ! 3\<rparr>)
                 (filter (\<lambda>l. trim l \<noteq> [] \<and> 4 \<le> length (split separator l))
                    (split newline stdout)))
   \<and> getCommitsForDate None
        (ustr ''abc123'' @ separator @ ustr ''Fix bug'' @ separator @ ustr ''Alice''
           @ separator @ ustr ''2024-01-05T10:00:00'')
      = Resolved [\<lparr>hash = ustr ''abc123'', message = ustr ''Fix bug'',
                   author = ustr ''Alice'', date = ustr ''2024-01-05T10:00:00''\<rparr>]"
proof
  show "getCommitsForDate None stdout =
     Resolved (map (\<lambda>l. \<lparr>hash = split separator l ! 0, message = split separator l ! 1,
                           author = split separator l ! 2, date = split separator l ! 3\<rparr>)
                 (filter (\<lambda>l. trim l \<noteq> [] \<and> 4 \<le> length (split separator l))
                    (split newline stdout)))"
  proof (cases "stdout = []")
    case True
    then show ?thesis
      by (simp add: getCommitsForDate_def split_newline_Nil trim_def)
  next
    case False
    then show ?thesis
      by (simp add: getCommitsForDate_def fold_push_line)
  qed
next
  show "getCommitsForDate None
        (ustr ''abc123'' @ separator @ ustr ''Fix bug'' @ separator @ ustr ''Alice''
           @ separator @ ustr ''2024-01-05T10:00:00'')
      = Resolved [\<lparr>hash = ustr ''abc123'', message = ustr ''Fix bug'',
                   author = ustr ''Alice'', date = ustr ''2024-01-05T10:00:00''\<rparr>]"
    by (simp add: getCommitsForDate_def push_line_def split_def separator_def newline_def
        ustr_def trim_def isWhiteSpace_def)
qed

text \<open>
  A text of four lines: a line of two fields, a well-formed line, a blank line and a
  second well-formed line. The two well-formed lines remain, in order.
\<close>

theorem getCommitsForDate_parse_witness:
  "getCommitsForDate None
     (ustr ''x'' @ separator @ ustr ''y'' @ newline
      @ ustr ''h1'' @ separator @ ustr ''m1'' @ separator @ ustr ''a1'' @ separator @ ustr ''d1''
      @ newline @ ustr ''  '' @ newline
      @ ustr ''h2'' @ separator @ ustr ''m2'' @ separator @ ustr ''a2'' @ separator @ ustr ''d2''
        @ separator @ ustr ''extra'')
   = Resolved [\<lparr>hash = ustr ''h1'', message = ustr ''m1'', author = ustr ''a1'', date = ustr ''d1''\<rparr>,
               \<lparr>hash = ustr ''h2'', message = ustr ''m2'', author = ustr ''a2'', date = ustr ''d2''\<rparr>]"
  using getCommitsForDate_parse [of
     "ustr ''x'' @ separator @ ustr ''y'' @ newline
      @ ustr ''h1'' @ separator @ ustr ''m1'' @ separator @ ustr ''a1'' @ separator @ ustr ''d1''
      @ newline @ ustr ''  '' @ newline
      @ ustr ''h2'' @ separator @ ustr ''m2'' @ separator @ ustr ''a2'' @ separator @ ustr ''d2''
        @ separator @ ustr ''extra''"]
  by (simp add: split_def separator_def newline_def ustr_def trim_def isWhiteSpace_def)

lemma fold_count_line:
  "fold count_line ls m d =
    (let n = length (filter (\<lambda>l. trim l = d) ls)
     in if n = 0 then m d else Some (stats_get_or_0 m d + n))"
  by (induction ls arbitrary: m) (auto simp: count_line_def Let_def stats_get_or_0_def)

lemma parseGitLog_count:
  "parseGitLog gitLog d =
     (let n = length (filter (\<lambda>l. trim l \<noteq> [] \<and> trim l = d) (split newline gitLog))
      in if n = 0 then None else Some n)"
  by (simp add: parseGitLog_def fold_count_line Let_def stats_get_or_0_def conj_commute)

lemma length_filter_mset: "length (filter P xs) = size (filter_mset P (mset xs))"
  by (metis mset_filter size_mset)

text \<open>
  C9. The count that \<open>parseGitLog\<close> gives a date is the number of non-blank lines
  that carry it, after trimming (no entry when there is none); so two texts whose lines
  are permutations of each other give the same mapping.
\<close>

theorem parseGitLog_permutation:
  "parseGitLog gitLog d =
     (let n = length (filter (\<lambda>l. trim l \<noteq> [] \<and> trim l = d) (split newline gitLog))
      in if n = 0 then None else Some n)
   \<and> (mset (split newline gitLog) = mset (split newline gitLog')
        \<longrightarrow> parseGitLog gitLog = parseGitLog gitLog')"
proof
  show "parseGitLog gitLog d =
     (let n = length (filter (\<lambda>l. trim l \<noteq> [] \<and> trim l = d) (split newline gitLog))
      in if n = 0 then None else Some n)"
    by (rule parseGitLog_count)
next
  show "mset (split newline gitLog) = mset (split newline gitLog')
        \<longrightarrow> parseGitLog gitLog = parseGitLog gitLog'"
  proof
    assume perm: "mset (split newline gitLog) = mset (split newline gitLog')"
    show "parseGitLog gitLog = parseGitLog gitLog'"
    proof
      fix k
      have "length (filter (\<lambda>l. trim l \<noteq> [] \<and> trim l = k) (split newline gitLog))
          = length (filter (\<lambda>l. trim l \<noteq> [] \<and> trim l = k) (split newline gitLog'))"
        by (simp only: length_filter_mset perm)
      then show "parseGitLog gitLog k = parseGitLog gitLog' k"
        by (simp only: parseGitLog_count)
    qed
  qed
qed

text \<open>
  Two dates, one of them twice and once with spaces around it, in two line orders.
\<close>

theorem parseGitLog_permutation_witness:
  "parseGitLog (ustr ''2024-01-01'' @ newline @ ustr ''2024-01-03'' @ newline
                @ ustr '' 2024-01-01 '' @ newline)
   = parseGitLog (ustr '' 2024-01-01 '' @ newline @ newline @ ustr ''2024-01-01''
                  @ newline @ ustr ''2024-01-03'')
   \<and> parseGitLog (ustr ''2024-01-01'' @ newline @ ustr ''2024-01-03'' @ newline
                  @ ustr '' 2024-01-01 '' @ newline) (ustr ''2024-01-01'') = Some 2"
proof -
  let ?A = "ustr ''2024-01-01'' @ newline @ ustr ''2024-01-03'' @ newline
              @ ustr '' 2024-01-01 '' @ newline"
  let ?B = "ustr '' 2024-01-01 '' @ newline @ newline @ ustr ''2024-01-01''
              @ newline @ ustr ''2024-01-03''"
  let ?d = "ustr ''2024-01-01''"
  have perm: "mset (split newline ?A) = mset (split newline ?B)"
    by (simp add: split_def newline_def ustr_def)
  have cnt: "length (filter (\<lambda>l. trim l \<noteq> [] \<and> trim l = ?d) (split newline ?A)) = 2"
    by (simp add: split_def newline_def ustr_def trim_def isWhiteSpace_def)
  note inst = parseGitLog_permutation [of ?A ?d ?B]
  from inst perm have same: "parseGitLog ?A = parseGitLog ?B"
    by blast
  from inst have "parseGitLog ?A ?d =
      (let n = length (filter (\<lambda>l. trim l \<noteq> [] \<and> trim l = ?d) (split newline ?A))
       in if n = 0 then None else Some n)"
    by blast
  then have "parseGitLog ?A ?d = Some 2"
    unfolding cnt by simp
  with same show ?thesis
    by blast
qed

subsection \<open>Settings\<close>

text \<open>
  C10. Entering \<open>-5\<close> in the Default Days field, starting from the default settings,
  stores the value -5: \<open>parseInt\<close> gives -5, which is truthy, so the fallback 365 is
  not taken.
\<close>

theorem onChange_negative:
  "defaultDays (onChange (ustr ''-5'') DEFAULT_SETTINGS) = - 5"
  by (simp add: onChange_def parseInt_def trimStart_def ustr_def isWhiteSpace_def
      isRadixDigit_def digitValue_def digitsValue_def DEFAULT_SETTINGS_def)

subsection \<open>Layout\<close>

lemma cell_grid_set:
  "cell (grid_set g r c v) r' c' = (if r' = r \<and> c' = c then Some v else cell g r' c')"
  by (auto simp: cell_def grid_set_def Let_def split: option.splits)

lemma cell_empty: "cell Map.empty r c = None"
  by (simp add: cell_def)

lemma layout_loop_fold:
  "layout_loop z dk st start sd D i s = fold (layout_step z dk st start sd) [i..D - 1] s"
proof (induction z dk st start sd D i s rule: layout_loop.induct)
  case (1 z dk st start sd D i s)
  show ?case
  proof (cases "i < D")
    case True
    then have "[i..D - 1] = i # [i + 1..D - 1]"
      by (simp add: upto_rec1)
    with True 1 show ?thesis
      by (subst layout_loop.simps) simp
  next
    case False
    then show ?thesis
      by (subst layout_loop.simps) simp
  qed
qed

lemma step_gridMeta:
  "gridMeta (snd (layout_step z dk st start sd i s)) =
     grid_set (gridMeta (snd s)) (cellRow z start i) (cellCol sd i)
       \<lparr>dateStr = toISODate (addDays z start i),
        count = stats_get_or_0 st (toISODate (addDays z start i))\<rparr>"
  by (simp add: layout_step_def Let_def split: prod.splits)

lemma step_gridRects:
  "gridRects (snd (layout_step z dk st start sd i s)) =
     grid_set (gridRects (snd s)) (cellRow z start i) (cellCol sd i)
       \<lparr>rect_uid = nextUid (snd s),
        rect_x = cellCol sd i * (blockSize + blockGap),
        rect_y = cellRow z start i * (blockSize + blockGap),
        rect_fill = colors dk ! level (stats_get_or_0 st (toISODate (addDays z start i)))\<rparr>"
  by (simp add: layout_step_def Let_def split: prod.splits)

lemma step_frame:
  "activeRect (snd (layout_step z dk st start sd i s)) = activeRect (snd s)
   \<and> currentPos (snd (layout_step z dk st start sd i s)) = currentPos (snd s)
   \<and> keyHandler (snd (layout_step z dk st start sd i s)) = keyHandler (snd s)
   \<and> activeSelected (snd (layout_step z dk st start sd i s)) = activeSelected (snd s)
   \<and> infoArea (snd (layout_step z dk st start sd i s)) = infoArea (snd s)"
  by (simp add: layout_step_def Let_def split: prod.splits)

lemma fold_frame:
  "activeRect (snd (fold (layout_step z dk st start sd) is s)) = activeRect (snd s)
   \<and> currentPos (snd (fold (layout_step z dk st start sd) is s)) = currentPos (snd s)
   \<and> keyHandler (snd (fold (layout_step z dk st start sd) is s)) = keyHandler (snd s)
   \<and> activeSelected (snd (fold (layout_step z dk st start sd) is s)) = activeSelected (snd s)
   \<and> infoArea (snd (fold (layout_step z dk st start sd) is s)) = infoArea (snd s)"
  by (induction "is" arbitrary: s) (simp_all add: step_frame)

lemma fold_gridMeta_other:
  "\<forall>i\<in>set is. (cellRow z start i, cellCol sd i) \<noteq> (r, c) \<Longrightarrow>
   cell (gridMeta (snd (fold (layout_step z dk st start sd) is s))) r c
     = cell (gridMeta (snd s)) r c"
proof (induction "is" arbitrary: s)
  case Nil
  then show ?case by simp
next
  case (Cons j js)
  then show ?case
    by (auto simp: step_gridMeta cell_grid_set)
qed




lemma fold_grids_agree:
  "\<forall>r c. (cell (gridRects (snd s)) r c = None) = (cell (gridMeta (snd s)) r c = None) \<Longrightarrow>
   (cell (gridRects (snd (fold (layout_step z dk st start sd) is s))) r c = None)
     = (cell (gridMeta (snd (fold (layout_step z dk st start sd) is s))) r c = None)"
proof (induction "is" arbitrary: s r c)
  case Nil
  then show ?case by simp
next
  case (Cons j js)
  have "\<forall>r c. (cell (gridRects (snd (layout_step z dk st start sd j s))) r c = None)
             = (cell (gridMeta (snd (layout_step z dk st start sd j s))) r c = None)"
    using Cons.prems by (simp add: step_gridRects step_gridMeta cell_grid_set)
  then show ?case
    using Cons.IH by simp
qed

lemma localDay_addDays_fixed:
  "localDay (fixed_zone tz) (addDays (fixed_zone tz) t k) = localDay (fixed_zone tz) t + k"
  by (simp add: localDay_def addDays_def LocalTime_def UTC_def fixed_zone_def msPerDay_def)


lemma cellRow_eq:
  "localDay z (addDays z start i) = localDay z start + i \<Longrightarrow>
   cellRow z start i = (getDay z start + i) mod 7"
  by (simp add: cellRow_def getDay_def) presburger

lemma cellRow_eq_fixed:
  "cellRow (fixed_zone tz) start i = (getDay (fixed_zone tz) start + i) mod 7"
  by (rule cellRow_eq) (rule localDay_addDays_fixed)

lemma cellCol_eq: "cellCol sd i = (i + sd) div 7"
  using floor_divide_of_int_eq [of "i + sd" 7] by (simp add: cellCol_def)






lemma selectCell_grids:
  "gridMeta (selectCell r c p) = gridMeta p \<and> gridRects (selectCell r c p) = gridRects p
   \<and> keyHandler (selectCell r c p) = keyHandler p
   \<and> monthLabels (selectCell r c p) = monthLabels p"
  by (simp add: selectCell_def split: option.splits)

lemma renderHeatmap_unfold:
  "renderHeatmap z dk now st D p =
     selectCell (getDay z (startDate z now D))
       (totalWeeks D (getDay z (startDate z now D)) - 1)
       ((snd (fold (layout_step z dk st (startDate z now D) (getDay z (startDate z now D)))
                [0..D - 1]
                (- 1, p\<lparr>gridRects := Map.empty, gridMeta := Map.empty, monthLabels := []\<rparr>)))
        \<lparr>keyHandler := Some (totalWeeks D (getDay z (startDate z now D)))\<rparr>)"
  by (simp add: renderHeatmap_def Let_def layout_loop_fold)



lemma render_gridMeta_other:
  assumes "\<forall>i. 0 \<le> i \<and> i < D \<longrightarrow>
      (cellRow z (startDate z now D) i, cellCol (getDay z (startDate z now D)) i) \<noteq> (r, c)"
  shows "cell (gridMeta (renderHeatmap z dk now st D p)) r c = None"
proof -
  have sep: "\<forall>i\<in>set [0..D - 1].
      (cellRow z (startDate z now D) i, cellCol (getDay z (startDate z now D)) i) \<noteq> (r, c)"
    using assms by simp
  show ?thesis
    by (simp add: renderHeatmap_unfold selectCell_grids fold_gridMeta_other [OF sep] cell_empty)
qed

lemma render_grids_agree:
  "(cell (gridRects (renderHeatmap z dk now st D p)) r c = None)
     = (cell (gridMeta (renderHeatmap z dk now st D p)) r c = None)"
  by (simp add: renderHeatmap_unfold selectCell_grids fold_grids_agree cell_empty)








subsection \<open>Selection\<close>

lemma selectCell_noop:
  "cell (gridRects p) r c = None \<or> cell (gridMeta p) r c = None \<Longrightarrow> selectCell r c p = p"
  by (auto simp: selectCell_def split: option.splits)

lemma selectCell_populated:
  "cell (gridRects p) r c = Some rect \<Longrightarrow> cell (gridMeta p) r c = Some meta \<Longrightarrow>
   selectCell r c p =
     p\<lparr>activeSelected :=
          insert (rect_uid rect)
            (case activeRect p of None \<Rightarrow> activeSelected p
             | Some a \<Rightarrow> activeSelected p - {rect_uid a}),
        activeRect := Some rect, currentPos := (r, c),
        infoArea := Some (dateStr meta, count meta)\<rparr>"
  by (simp add: selectCell_def)

lemma selectCell_preserves:
  "selection_populated p \<Longrightarrow> selection_populated (selectCell r c p)"
  by (auto simp: selection_populated_def selectCell_def split: option.splits prod.splits)

lemma keyHandler_run_cases:
  "keyHandler_run tw editing k p = p
   \<or> (\<exists>r c. arrowTarget tw k (currentPos p) = Some (r, c) \<and> (r, c) \<noteq> currentPos p
        \<and> \<not> editing \<and> keyHandler_run tw editing k p = selectCell r c p)"
  by (cases "currentPos p") (auto simp: keyHandler_run_def split: option.splits)

lemma keyHandler_run_preserves:
  "selection_populated p \<Longrightarrow> selection_populated (keyHandler_run tw editing k p)"
  using keyHandler_run_cases [of tw editing k p] by (auto simp: selectCell_preserves)

lemma keyHandler_run_edge:
  "arrowTarget tw k (currentPos p) = Some (currentPos p) \<Longrightarrow> keyHandler_run tw editing k p = p"
  by (cases "currentPos p") (auto simp: keyHandler_run_def)

text \<open>
  C4. \<open>selectCell\<close> changes nothing when the target is unpopulated, and it and every
  \<open>keydown\<close> event keep the invariant that \<open>currentPos\<close> is a populated position
  whose rect is the active one. A \<open>keydown\<close> either changes nothing or moves the
  selection to the clamped target, which is then populated; when clamping gives back
  the current position (an arrow at the edge of the grid) nothing changes.
\<close>

theorem selection_invariant:
  "(cell (gridRects p) r c = None \<or> cell (gridMeta p) r c = None \<longrightarrow> selectCell r c p = p)
   \<and> (selection_populated p \<longrightarrow> selection_populated (selectCell r c p))
   \<and> (selection_populated p \<longrightarrow> selection_populated (keydown editing k p))
   \<and> (keyHandler p = Some tw \<longrightarrow>
        keydown editing k p = p
        \<or> (\<exists>r' c' rect meta.
              arrowTarget tw k (currentPos p) = Some (r', c')
              \<and> cell (gridRects p) r' c' = Some rect \<and> cell (gridMeta p) r' c' = Some meta
              \<and> keydown editing k p = selectCell r' c' p
              \<and> currentPos (keydown editing k p) = (r', c')
              \<and> activeRect (keydown editing k p) = Some rect))
   \<and> (keyHandler p = Some tw \<and> arrowTarget tw k (currentPos p) = Some (currentPos p)
        \<longrightarrow> keydown editing k p = p)"
proof (intro conjI impI)
  assume "cell (gridRects p) r c = None \<or> cell (gridMeta p) r c = None"
  then show "selectCell r c p = p"
    by (rule selectCell_noop)
next
  assume "selection_populated p"
  then show "selection_populated (selectCell r c p)"
    by (rule selectCell_preserves)
next
  assume "selection_populated p"
  then show "selection_populated (keydown editing k p)"
    by (simp add: keydown_def keyHandler_run_preserves split: option.splits)
next
  assume h: "keyHandler p = Some tw"
  then have kd: "keydown editing k p = keyHandler_run tw editing k p"
    by (simp add: keydown_def)
  from keyHandler_run_cases [of tw editing k p]
  show "keydown editing k p = p
        \<or> (\<exists>r' c' rect meta.
              arrowTarget tw k (currentPos p) = Some (r', c')
              \<and> cell (gridRects p) r' c' = Some rect \<and> cell (gridMeta p) r' c' = Some meta
              \<and> keydown editing k p = selectCell r' c' p
              \<and> currentPos (keydown editing k p) = (r', c')
              \<and> activeRect (keydown editing k p) = Some rect)"
  proof
    assume "keyHandler_run tw editing k p = p"
    then show ?thesis by (simp add: kd)
  next
    assume "\<exists>r c. arrowTarget tw k (currentPos p) = Some (r, c) \<and> (r, c) \<noteq> currentPos p
        \<and> \<not> editing \<and> keyHandler_run tw editing k p = selectCell r c p"
    then obtain r' c' where t: "arrowTarget tw k (currentPos p) = Some (r', c')"
      and run: "keyHandler_run tw editing k p = selectCell r' c' p"
      by blast
    show ?thesis
    proof (cases "cell (gridRects p) r' c' = None \<or> cell (gridMeta p) r' c' = None")
      case True
      then show ?thesis
        by (simp add: kd run selectCell_noop)
    next
      case False
      then obtain rect meta where pop: "cell (gridRects p) r' c' = Some rect"
          "cell (gridMeta p) r' c' = Some meta"
        by auto
      have "currentPos (selectCell r' c' p) = (r', c')
            \<and> activeRect (selectCell r' c' p) = Some rect"
        by (simp add: selectCell_populated [OF pop])
      with t pop show ?thesis
        by (simp add: kd run)
    qed
  qed
next
  assume "keyHandler p = Some tw \<and> arrowTarget tw k (currentPos p) = Some (currentPos p)"
  then show "keydown editing k p = p"
    by (simp add: keydown_def keyHandler_run_edge)
qed


text \<open>
  A grid of two cells, (2, 0) and (3, 0), with (2, 0) selected: the invariant holds, it
  still holds after ArrowDown, and ArrowLeft in column 0 changes nothing.
\<close>

theorem selection_invariant_witness:
  "selection_populated
     (selectCell 2 0
        (initial_plugin
           \<lparr>gridRects := grid_set (grid_set Map.empty 2 0
                \<lparr>rect_uid = 0, rect_x = 0, rect_y = 28, rect_fill = ustr ''#ebedf0''\<rparr>) 3 0
                \<lparr>rect_uid = 1, rect_x = 0, rect_y = 42, rect_fill = ustr ''#ebedf0''\<rparr>,
             gridMeta := grid_set (grid_set Map.empty 2 0
                \<lparr>dateStr = ustr ''2024-01-09'', count = 0\<rparr>) 3 0
                \<lparr>dateStr = ustr ''2024-01-10'', count = 0\<rparr>,
             keyHandler := Some 1\<rparr>))
   \<and> selection_populated
     (keydown False ArrowDown (selectCell 2 0
        (initial_plugin
           \<lparr>gridRects := grid_set (grid_set Map.empty 2 0
                \<lparr>rect_uid = 0, rect_x = 0, rect_y = 28, rect_fill = ustr ''#ebedf0''\<rparr>) 3 0
                \<lparr>rect_uid = 1, rect_x = 0, rect_y = 42, rect_fill = ustr ''#ebedf0''\<rparr>,
             gridMeta := grid_set (grid_set Map.empty 2 0
                \<lparr>dateStr = ustr ''2024-01-09'', count = 0\<rparr>) 3 0
                \<lparr>dateStr = ustr ''2024-01-10'', count = 0\<rparr>,
             keyHandler := Some 1\<rparr>)))
   \<and> keydown False ArrowLeft (selectCell 2 0
        (initial_plugin
           \<lparr>gridRects := grid_set (grid_set Map.empty 2 0
                \<lparr>rect_uid = 0, rect_x = 0, rect_y = 28, rect_fill = ustr ''#ebedf0''\<rparr>) 3 0
                \<lparr>rect_uid = 1, rect_x = 0, rect_y = 42, rect_fill = ustr ''#ebedf0''\<rparr>,
             gridMeta := grid_set (grid_set Map.empty 2 0
                \<lparr>dateStr = ustr ''2024-01-09'', count = 0\<rparr>) 3 0
                \<lparr>dateStr = ustr ''2024-01-10'', count = 0\<rparr>,
             keyHandler := Some 1\<rparr>))
     = selectCell 2 0
        (initial_plugin
           \<lparr>gridRects := grid_set (grid_set Map.empty 2 0
                \<lparr>rect_uid = 0, rect_x = 0, rect_y = 28, rect_fill = ustr ''#ebedf0''\<rparr>) 3 0
                \<lparr>rect_uid = 1, rect_x = 0, rect_y = 42, rect_fill = ustr ''#ebedf0''\<rparr>,
             gridMeta := grid_set (grid_set Map.empty 2 0
                \<lparr>dateStr = ustr ''2024-01-09'', count = 0\<rparr>) 3 0
                \<lparr>dateStr = ustr ''2024-01-10'', count = 0\<rparr>,
             keyHandler := Some 1\<rparr>)"
proof -
  let ?p0 = "initial_plugin
           \<lparr>gridRects := grid_set (grid_set Map.empty 2 0
                \<lparr>rect_uid = 0, rect_x = 0, rect_y = 28, rect_fill = ustr ''#ebedf0''\<rparr>) 3 0
                \<lparr>rect_uid = 1, rect_x = 0, rect_y = 42, rect_fill = ustr ''#ebedf0''\<rparr>,
             gridMeta := grid_set (grid_set Map.empty 2 0
                \<lparr>dateStr = ustr ''2024-01-09'', count = 0\<rparr>) 3 0
                \<lparr>dateStr = ustr ''2024-01-10'', count = 0\<rparr>,
             keyHandler := Some 1\<rparr>"
  let ?q = "selectCell 2 0 ?p0"
  have pos: "currentPos ?q = (2, 0)" and kh: "keyHandler ?q = Some 1"
    by (simp_all add: selectCell_def cell_grid_set initial_plugin_def)
  have inv: "selection_populated ?q"
    by (simp add: selection_populated_def selectCell_def cell_grid_set initial_plugin_def)
  have edge: "arrowTarget 1 ArrowLeft (currentPos ?q) = Some (currentPos ?q)"
    unfolding pos by (simp add: arrowTarget_def)
  from selection_invariant [where p = ?q and editing = False and k = ArrowDown] inv
  have down: "selection_populated (keydown False ArrowDown ?q)"
    by blast
  from selection_invariant [where p = ?q and editing = False and k = ArrowLeft and tw = 1]
    kh edge
  have left: "keydown False ArrowLeft ?q = ?q"
    by blast
  from inv down left show ?thesis
    by blast
qed

lemma render_default_unpopulated:
  assumes "cell (gridMeta (renderHeatmap z dk now st D p)) (getDay z (startDate z now D))
             (totalWeeks D (getDay z (startDate z now D)) - 1) = None"
  shows "activeRect (renderHeatmap z dk now st D p) = activeRect p
         \<and> currentPos (renderHeatmap z dk now st D p) = currentPos p
         \<and> activeSelected (renderHeatmap z dk now st D p) = activeSelected p
         \<and> infoArea (renderHeatmap z dk now st D p) = infoArea p"
proof -
  let ?inner = "(snd (fold (layout_step z dk st (startDate z now D) (getDay z (startDate z now D)))
                [0..D - 1]
                (- 1, p\<lparr>gridRects := Map.empty, gridMeta := Map.empty, monthLabels := []\<rparr>)))
        \<lparr>keyHandler := Some (totalWeeks D (getDay z (startDate z now D)))\<rparr>"
  have un: "renderHeatmap z dk now st D p =
      selectCell (getDay z (startDate z now D))
        (totalWeeks D (getDay z (startDate z now D)) - 1) ?inner"
    by (rule renderHeatmap_unfold)
  have "cell (gridMeta ?inner) (getDay z (startDate z now D))
             (totalWeeks D (getDay z (startDate z now D)) - 1) = None"
    using assms unfolding un by (simp only: selectCell_grids)
  then have "renderHeatmap z dk now st D p = ?inner"
    unfolding un by (simp add: selectCell_noop)
  then show ?thesis
    by (simp add: fold_frame)
qed

text \<open>
  C2. The default selection at the end of a render is \<open>selectCell\<close> at
  \<open>(startDayOfWeek, totalWeeks - 1)\<close>. For a window of 7 days rendered on Tuesday
  9 January 2024 the window starts on a Wednesday (3) and has 2 week columns, and
  position (3, 1) is populated in neither grid (the last column holds rows 0 to 2
  only): the call returns early, and after the first render of a plugin no rect is
  active and the info area was never updated.
\<close>

theorem default_selection_unpopulated:
  "getDay (fixed_zone 0) (startDate (fixed_zone 0) 1704801600000 7) = 3
   \<and> totalWeeks 7 3 = 2
   \<and> cell (gridRects (renderHeatmap (fixed_zone 0) False 1704801600000 Map.empty 7 initial_plugin)) 3 1 = None
   \<and> cell (gridMeta (renderHeatmap (fixed_zone 0) False 1704801600000 Map.empty 7 initial_plugin)) 3 1 = None
   \<and> activeRect (renderHeatmap (fixed_zone 0) False 1704801600000 Map.empty 7 initial_plugin) = None
   \<and> activeSelected (renderHeatmap (fixed_zone 0) False 1704801600000 Map.empty 7 initial_plugin) = {}
   \<and> infoArea (renderHeatmap (fixed_zone 0) False 1704801600000 Map.empty 7 initial_plugin) = None"
proof -
  have sd: "getDay (fixed_zone 0) (startDate (fixed_zone 0) 1704801600000 7) = 3"
    by (simp add: getDay_def localDay_def startDate_def addDays_def msPerDay_def
        LocalTime_def UTC_def fixed_zone_def)
  have tw: "totalWeeks 7 3 = 2"
    by (simp add: totalWeeks_def)
  have "\<forall>i. 0 \<le> i \<and> i < 7 \<longrightarrow>
      (cellRow (fixed_zone 0) (startDate (fixed_zone 0) 1704801600000 7) i,
       cellCol (getDay (fixed_zone 0) (startDate (fixed_zone 0) 1704801600000 7)) i) \<noteq> (3, 1)"
    unfolding cellRow_eq_fixed cellCol_eq sd by (simp del: One_nat_def) presburger
  then have meta: "cell (gridMeta (renderHeatmap (fixed_zone 0) False 1704801600000 Map.empty 7
      initial_plugin)) 3 1 = None"
    by (rule render_gridMeta_other)
  then have rects: "cell (gridRects (renderHeatmap (fixed_zone 0) False 1704801600000 Map.empty 7
      initial_plugin)) 3 1 = None"
    by (simp add: render_grids_agree)
  from meta have "cell (gridMeta (renderHeatmap (fixed_zone 0) False 1704801600000 Map.empty 7
      initial_plugin)) (getDay (fixed_zone 0) (startDate (fixed_zone 0) 1704801600000 7))
      (totalWeeks 7 (getDay (fixed_zone 0) (startDate (fixed_zone 0) 1704801600000 7)) - 1) = None"
    by (simp add: sd tw)
  from render_default_unpopulated [OF this] sd tw meta rects show ?thesis
    by (simp add: initial_plugin_def)
qed

subsection \<open>Month labels\<close>

lemma step_labels:
  "monthLabels (snd (layout_step z dk st start sd i (lastMonth, q))) =
     (if ((cellCol sd i = 0 \<and> i = 0) \<or> cellRow z start i = 0)
         \<and> getMonth z (addDays z start i) \<noteq> lastMonth
      then monthLabels q @ [(monthNames ! nat (getMonth z (addDays z start i)),
                              cellCol sd i * (blockSize + blockGap))]
      else monthLabels q)
   \<and> fst (layout_step z dk st start sd i (lastMonth, q)) =
     (if ((cellCol sd i = 0 \<and> i = 0) \<or> cellRow z start i = 0)
         \<and> getMonth z (addDays z start i) \<noteq> lastMonth
      then getMonth z (addDays z start i) else lastMonth)"
  by (simp add: layout_step_def Let_def)

lemma map_remdups_adj_head:
  "name m # map name (tl (remdups_adj (m # xs))) = map name (remdups_adj (m # xs))"
  by (cases "remdups_adj xs") (auto simp: remdups_adj_Cons)

lemma tl_remdups_adj_fresh: "x \<notin> set xs \<Longrightarrow> tl (remdups_adj (x # xs)) = remdups_adj xs"
  by (cases xs) auto

lemma fold_gate:
  assumes lab: "\<And>i lm q. map fst (monthLabels (snd (f i (lm, q)))) =
        (if cand i \<and> mon i \<noteq> lm then map fst (monthLabels q) @ [name (mon i)]
         else map fst (monthLabels q))"
    and lst: "\<And>i lm q. fst (f i (lm, q)) = (if cand i \<and> mon i \<noteq> lm then mon i else lm)"
  shows "map fst (monthLabels (snd (fold f is (lm, q)))) =
     map fst (monthLabels q) @ map name (tl (remdups_adj (lm # map mon (filter cand is))))"
proof (induction "is" arbitrary: lm q)
  case Nil
  then show ?case by simp
next
  case (Cons i js)
  obtain lm' q' where s': "f i (lm, q) = (lm', q')"
    by (cases "f i (lm, q)")
  have lab': "map fst (monthLabels q') =
        (if cand i \<and> mon i \<noteq> lm then map fst (monthLabels q) @ [name (mon i)]
         else map fst (monthLabels q))"
    using lab [of i lm q] by (simp add: s')
  have lst': "lm' = (if cand i \<and> mon i \<noteq> lm then mon i else lm)"
    using lst [of i lm q] by (simp add: s')
  have "map fst (monthLabels (snd (fold f (i # js) (lm, q)))) =
      map fst (monthLabels q') @ map name (tl (remdups_adj (lm' # map mon (filter cand js))))"
    by (simp add: s' Cons.IH)
  also have "\<dots> = map fst (monthLabels q) @
      map name (tl (remdups_adj (lm # map mon (filter cand (i # js)))))"
  proof (cases "cand i \<and> mon i \<noteq> lm")
    case True
    then have "lm \<noteq> mon i" by auto
    with True show ?thesis
      by (simp add: lab' lst' map_remdups_adj_head)
  next
    case False
    then show ?thesis
      by (auto simp: lab' lst')
  qed
  finally show ?case .
qed

lemma fold_labels:
  "map fst (monthLabels (snd (fold (layout_step z dk st start sd) is (lm, q)))) =
     map fst (monthLabels q) @
     map (\<lambda>m. monthNames ! nat m)
       (tl (remdups_adj (lm # map (\<lambda>i. getMonth z (addDays z start i))
              (filter (\<lambda>i. (cellCol sd i = 0 \<and> i = 0) \<or> cellRow z start i = 0) is))))"
  by (rule fold_gate) (auto simp: step_labels)

lemma getMonth_range: "0 \<le> getMonth z t \<and> getMonth z t \<le> 11"
  by (simp add: getMonth_def MonthFromDay_def Let_def)

lemma render_monthLabels:
  "map fst (monthLabels (renderHeatmap z dk now st D p)) =
     map (\<lambda>m. monthNames ! nat m)
       (remdups_adj (map (\<lambda>i. getMonth z (addDays z (startDate z now D) i))
          (filter (\<lambda>i. (cellCol (getDay z (startDate z now D)) i = 0 \<and> i = 0)
                        \<or> cellRow z (startDate z now D) i = 0) [0..D - 1])))"
proof -
  have fresh: "- 1 \<notin> set (map (\<lambda>i. getMonth z (addDays z (startDate z now D) i))
          (filter (\<lambda>i. (cellCol (getDay z (startDate z now D)) i = 0 \<and> i = 0)
                        \<or> cellRow z (startDate z now D) i = 0) [0..D - 1]))"
  proof
    assume "- 1 \<in> set (map (\<lambda>i. getMonth z (addDays z (startDate z now D) i))
          (filter (\<lambda>i. (cellCol (getDay z (startDate z now D)) i = 0 \<and> i = 0)
                        \<or> cellRow z (startDate z now D) i = 0) [0..D - 1]))"
    then obtain i where "getMonth z (addDays z (startDate z now D) i) = - 1"
      by auto
    with getMonth_range [of z "addDays z (startDate z now D) i"] show False
      by simp
  qed
  show ?thesis
    by (simp add: renderHeatmap_unfold selectCell_grids fold_labels
        tl_remdups_adj_fresh [OF fresh])
qed

lemma distinct_monthNames: "distinct monthNames"
  by (simp add: monthNames_def ustr_def)

lemma monthNames_inj: "inj_on (\<lambda>m. monthNames ! nat m) {0..11}"
proof (rule inj_onI)
  fix x y :: int
  assume x: "x \<in> {0..11}" and y: "y \<in> {0..11}"
    and eq: "monthNames ! nat x = monthNames ! nat y"
  have len: "length monthNames = 12"
    by (simp add: monthNames_def)
  have "nat x < length monthNames" "nat y < length monthNames"
    using x y unfolding len by auto
  with eq have "nat x = nat y"
    using distinct_monthNames by (simp add: nth_eq_iff_index_eq)
  with x y show "x = y"
    by (simp add: eq_nat_nat_iff)
qed


text \<open>
  C5 (amended). At offset \<open>i\<close> the loop body emits a month label exactly when
  \<open>(col = 0 and i = 0) or row = 0\<close> holds and the month of that day differs from
  \<open>lastMonth\<close>, which then becomes that month. Over a whole render the emitted names
  are therefore the months of the candidate offsets with consecutive repetitions
  removed: no two consecutive labels name the same month. (A name can come back after
  another month was labelled.)
\<close>

theorem month_labels_gated:
  assumes "start = startDate z now D" and "sd = getDay z start"
    and "p' = renderHeatmap z dk now st D p"
  shows "(\<forall>i lastMonth q.
            monthLabels (snd (layout_step z dk st start sd i (lastMonth, q))) =
              (if ((cellCol sd i = 0 \<and> i = 0) \<or> cellRow z start i = 0)
                  \<and> getMonth z (addDays z start i) \<noteq> lastMonth
               then monthLabels q @ [(monthNames ! nat (getMonth z (addDays z start i)),
                                       cellCol sd i * (blockSize + blockGap))]
               else monthLabels q)
            \<and> fst (layout_step z dk st start sd i (lastMonth, q)) =
              (if ((cellCol sd i = 0 \<and> i = 0) \<or> cellRow z start i = 0)
                  \<and> getMonth z (addDays z start i) \<noteq> lastMonth
               then getMonth z (addDays z start i) else lastMonth))
       \<and> map fst (monthLabels p') =
            map (\<lambda>m. monthNames ! nat m)
              (remdups_adj (map (\<lambda>i. getMonth z (addDays z start i))
                 (filter (\<lambda>i. (cellCol sd i = 0 \<and> i = 0) \<or> cellRow z start i = 0)
                    [0..D - 1])))
       \<and> distinct_adj (map fst (monthLabels p'))"
proof -
  let ?ms = "remdups_adj (map (\<lambda>i. getMonth z (addDays z start i))
                 (filter (\<lambda>i. (cellCol sd i = 0 \<and> i = 0) \<or> cellRow z start i = 0)
                    [0..D - 1]))"
  have run: "map fst (monthLabels p') = map (\<lambda>m. monthNames ! nat m) ?ms"
    unfolding assms by (rule render_monthLabels)
  have "set ?ms \<subseteq> {0..11}"
    using getMonth_range by auto
  then have "inj_on (\<lambda>m. monthNames ! nat m) (set ?ms)"
    by (rule inj_on_subset [OF monthNames_inj])
  then have "distinct_adj (map (\<lambda>m. monthNames ! nat m) ?ms)"
    by (intro distinct_adj_mapI) simp_all
  then have adj: "distinct_adj (map fst (monthLabels p'))"
    by (simp only: run)
  show ?thesis
    by (intro conjI allI step_labels run adj)
qed

lemma candidates_365:
  "map (\<lambda>i. getMonth (fixed_zone 0) (addDays (fixed_zone 0) (startDate (fixed_zone 0) 1793620800000 365) i))
     (filter (\<lambda>i. (cellCol (getDay (fixed_zone 0) (startDate (fixed_zone 0) 1793620800000 365)) i = 0 \<and> i = 0)
                   \<or> cellRow (fixed_zone 0) (startDate (fixed_zone 0) 1793620800000 365) i = 0) [0..365 - 1])
   = [10, 10, 10, 10, 10, 11, 11, 11, 11, 0, 0, 0, 0, 1, 1, 1, 1, 2, 2, 2, 2, 2, 3, 3, 3, 3,
      4, 4, 4, 4, 4, 5, 5, 5, 5, 6, 6, 6, 6, 7, 7, 7, 7, 7, 8, 8, 8, 8, 9, 9, 9, 9, 10]"
  unfolding cellRow_eq_fixed cellCol_eq by code_simp

text \<open>
  C5 as stated fails: a window of 365 days rendered on Monday 2 November 2026 starts on
  Monday 3 November 2025 and emits \<open>Nov\<close> twice, at offset 0 and at Sunday
  1 November 2026.
\<close>

theorem month_label_repeats:
  "map fst (monthLabels (renderHeatmap (fixed_zone 0) False 1793620800000 Map.empty 365 initial_plugin))
     = [ustr ''Nov'', ustr ''Dec'', ustr ''Jan'', ustr ''Feb'', ustr ''Mar'', ustr ''Apr'',
        ustr ''May'', ustr ''Jun'', ustr ''Jul'', ustr ''Aug'', ustr ''Sep'', ustr ''Oct'',
        ustr ''Nov'']
   \<and> \<not> distinct (map fst (monthLabels
          (renderHeatmap (fixed_zone 0) False 1793620800000 Map.empty 365 initial_plugin)))"
proof -
  have "map fst (monthLabels (renderHeatmap (fixed_zone 0) False 1793620800000 Map.empty 365 initial_plugin))
     = [ustr ''Nov'', ustr ''Dec'', ustr ''Jan'', ustr ''Feb'', ustr ''Mar'', ustr ''Apr'',
        ustr ''May'', ustr ''Jun'', ustr ''Jul'', ustr ''Aug'', ustr ''Sep'', ustr ''Oct'',
        ustr ''Nov'']"
    unfolding render_monthLabels candidates_365 by (simp add: monthNames_def)
  then show ?thesis
    by simp
qed


lemma candidates_40:
  "map (\<lambda>i. getMonth (fixed_zone 0) (addDays (fixed_zone 0) (startDate (fixed_zone 0) 1704801600000 40) i))
     (filter (\<lambda>i. (cellCol (getDay (fixed_zone 0) (startDate (fixed_zone 0) 1704801600000 40)) i = 0 \<and> i = 0)
                   \<or> cellRow (fixed_zone 0) (startDate (fixed_zone 0) 1704801600000 40) i = 0) [0..40 - 1])
   = [11, 11, 11, 11, 11, 11, 0]"
  unfolding cellRow_eq_fixed cellCol_eq by code_simp

text \<open>
  A window of 40 days rendered on 9 January 2024 starts on Friday 1 December 2023: the
  labels are \<open>Dec\<close> and \<open>Jan\<close>.
\<close>

theorem month_labels_gated_witness:
  "map fst (monthLabels (renderHeatmap (fixed_zone 0) False 1704801600000 Map.empty 40 initial_plugin))
     = [ustr ''Dec'', ustr ''Jan'']
   \<and> distinct_adj (map fst (monthLabels
          (renderHeatmap (fixed_zone 0) False 1704801600000 Map.empty 40 initial_plugin)))"
proof -
  from month_labels_gated [OF refl refl refl, where z = "fixed_zone 0" and now = 1704801600000
      and D = 40 and dk = False and st = Map.empty and p = initial_plugin]
  have run: "map fst (monthLabels
        (renderHeatmap (fixed_zone 0) False 1704801600000 Map.empty 40 initial_plugin)) =
      map (\<lambda>m. monthNames ! nat m)
        (remdups_adj (map (\<lambda>i. getMonth (fixed_zone 0) (addDays (fixed_zone 0) (startDate (fixed_zone 0) 1704801600000 40) i))
           (filter (\<lambda>i. (cellCol (getDay (fixed_zone 0) (startDate (fixed_zone 0) 1704801600000 40)) i = 0 \<and> i = 0)
                         \<or> cellRow (fixed_zone 0) (startDate (fixed_zone 0) 1704801600000 40) i = 0) [0..40 - 1])))"
    and adj: "distinct_adj (map fst (monthLabels
        (renderHeatmap (fixed_zone 0) False 1704801600000 Map.empty 40 initial_plugin)))"
    by blast+
  have "map fst (monthLabels
        (renderHeatmap (fixed_zone 0) False 1704801600000 Map.empty 40 initial_plugin))
      = [ustr ''Dec'', ustr ''Jan'']"
    unfolding run candidates_40 by (simp add: monthNames_def)
  with adj show ?thesis
    by simp
qed

end
